theory Spec2Isabelle
  imports Main "HOL-Library.Sublist"
begin

section \<open>Python strings\<close>

text \<open>
  A Python \<open>str\<close> is a sequence of Unicode code points, and \<open>len\<close>, \<open>strip\<close>, \<open>in\<close> and
  the \<open>re\<close> module all work on code points. A string is therefore modelled as a list of
  code points (natural numbers), not as a list of bytes. \<open>ustr\<close> reads an ASCII literal.
\<close>

type_synonym codepoint = nat
type_synonym pystr = "codepoint list"

definition ustr :: "string \<Rightarrow> pystr" where
  "ustr s = map of_char s"

definition lt_sign :: codepoint where
  "lt_sign = of_char (CHR ''<'')"

definition gt_sign :: codepoint where
  "gt_sign = of_char (CHR ''>'')"

text \<open>
  \<open>str.strip()\<close> with no argument removes leading and trailing whitespace; the whitespace
  code points are those of CPython's \<open>_PyUnicode_IsWhitespace\<close>.
\<close>

definition py_isspace :: "codepoint \<Rightarrow> bool" where
  "py_isspace c \<longleftrightarrow>
     (9 \<le> c \<and> c \<le> 13) \<or> (28 \<le> c \<and> c \<le> 32) \<or> c = 133 \<or> c = 160 \<or> c = 5760 \<or>
     (8192 \<le> c \<and> c \<le> 8202) \<or> c = 8232 \<or> c = 8233 \<or> c = 8239 \<or> c = 8287 \<or> c = 12288"

definition strip :: "pystr \<Rightarrow> pystr" where
  "strip s = rev (dropWhile py_isspace (rev (dropWhile py_isspace s)))"

text \<open>
  \<open>kw in s\<close> on strings: \<open>kw\<close> occurs in \<open>s\<close> as a contiguous substring. The scan tries
  every start position from the left.
\<close>

fun contains :: "pystr \<Rightarrow> pystr \<Rightarrow> bool" where
  "contains [] kw = (kw = [])"
| "contains (c # cs) kw = (prefix kw (c # cs) \<or> contains cs kw)"

section \<open>Markup stripping: \<open>re.sub(r'<[^>]+>', '', s)\<close>\<close>

text \<open>
  \<open>re_match_tag s\<close> is the match of \<open><[^>]+>\<close> anchored at the start of \<open>s\<close>; it returns
  the text after the match. The class \<open>[^>]\<close> also matches \<open><\<close> and newlines, and \<open>+\<close> is
  greedy: it takes the whole run of code points other than \<open>>\<close>. The run must be non-empty
  and must be followed by \<open>>\<close>; giving back part of the run cannot help, since the code
  point after a shorter run is not \<open>>\<close>.
\<close>

definition re_match_tag :: "pystr \<Rightarrow> pystr option" where
  "re_match_tag s =
     (case s of
        [] \<Rightarrow> None
      | c # cs \<Rightarrow>
          if c \<noteq> lt_sign then None
          else if takeWhile (\<lambda>x. x \<noteq> gt_sign) cs = [] then None
          else (case dropWhile (\<lambda>x. x \<noteq> gt_sign) cs of
                  [] \<Rightarrow> None
                | g # after \<Rightarrow> Some after))"

lemma re_match_tag_shorter: "re_match_tag s = Some after \<Longrightarrow> length after < length s"
proof -
  assume m: "re_match_tag s = Some after"
  then obtain c cs g where s: "s = c # cs" and d: "dropWhile (\<lambda>x. x \<noteq> gt_sign) cs = g # after"
    by (auto simp: re_match_tag_def split: list.splits if_splits)
  have "length (dropWhile (\<lambda>x. x \<noteq> gt_sign) cs) \<le> length cs"
    by (rule length_dropWhile_le)
  with d s show ?thesis by simp
qed

text \<open>
  \<open>re.sub\<close> scans from the left: where the pattern matches, the match is replaced by the
  empty string and the scan goes on after it; elsewhere the code point is copied and the
  scan moves one position on.
\<close>

function strip_tags :: "pystr \<Rightarrow> pystr" where
  "strip_tags [] = []"
| "strip_tags (c # cs) =
     (case re_match_tag (c # cs) of
        Some after \<Rightarrow> strip_tags after
      | None \<Rightarrow> c # strip_tags cs)"
  by pat_completeness auto
termination
  by (relation "measure length") (auto dest: re_match_tag_shorter)

subsection \<open>The stripping rule in the words of the specification\<close>

text \<open>
  A tag span of \<open>s\<close> runs from a position \<open>i\<close> holding \<open><\<close> to the position \<open>j\<close> of the next
  \<open>>\<close>, with at least one code point between the two. \<open>in_tag s k\<close>: position \<open>k\<close> lies in
  some tag span (and hence in a maximal one).
\<close>

definition tag_span :: "pystr \<Rightarrow> nat \<Rightarrow> nat \<Rightarrow> bool" where
  "tag_span s i j \<longleftrightarrow>
     Suc i < j \<and> j < length s \<and> s ! i = lt_sign \<and> s ! j = gt_sign \<and>
     (\<forall>m \<in> {i<..<j}. s ! m \<noteq> gt_sign)"

definition in_tag :: "pystr \<Rightarrow> nat \<Rightarrow> bool" where
  "in_tag s k \<longleftrightarrow> (\<exists>i \<in> {..k}. \<exists>j \<in> {k..<length s}. tag_span s i j)"

definition strip_tags_spec :: "pystr \<Rightarrow> pystr" where
  "strip_tags_spec s = map (\<lambda>k. s ! k) (filter (\<lambda>k. \<not> in_tag s k) [0..<length s])"

section \<open>Suggestion extraction: the \<open><suggested_text>\<close> delimiters\<close>

definition open_tag :: pystr where
  "open_tag = ustr ''<suggested_text>''"

definition close_tag :: pystr where
  "close_tag = ustr ''</suggested_text>''"

text \<open>
  \<open>lazy_until pat s\<close> is the match of \<open>(.*?)pat\<close> anchored at the start of \<open>s\<close>, under
  \<open>re.DOTALL\<close> (the dot matches every code point): the lazy star tries the shortest
  group first, so the group ends at the first occurrence of \<open>pat\<close>. The result is the
  group and the text after the match.
\<close>

fun lazy_until :: "pystr \<Rightarrow> pystr \<Rightarrow> (pystr \<times> pystr) option" where
  "lazy_until pat [] = (if pat = [] then Some ([], []) else None)"
| "lazy_until pat (c # cs) =
     (if prefix pat (c # cs) then Some ([], drop (length pat) (c # cs))
      else map_option (\<lambda>(g, after). (c # g, after)) (lazy_until pat cs))"

text \<open>
  The match of \<open><suggested_text>(.*?)</suggested_text>\<close> anchored at the start of \<open>s\<close>:
  group 1 and the text after the match.
\<close>

definition re_match_suggested :: "pystr \<Rightarrow> (pystr \<times> pystr) option" where
  "re_match_suggested s =
     (if prefix open_tag s then lazy_until close_tag (drop (length open_tag) s) else None)"

text \<open>
  \<open>re.search\<close>: the leftmost start position at which the pattern matches. The result is
  the text before the match, group 1, and the text after the match.
\<close>

fun re_search_suggested :: "pystr \<Rightarrow> (pystr \<times> pystr \<times> pystr) option" where
  "re_search_suggested [] = None"
| "re_search_suggested (c # cs) =
     (case re_match_suggested (c # cs) of
        Some (g, after) \<Rightarrow> Some ([], g, after)
      | None \<Rightarrow> map_option (\<lambda>(before, g, after). (c # before, g, after)) (re_search_suggested cs))"

lemma lazy_until_shorter: "lazy_until pat s = Some (g, after) \<Longrightarrow> length after \<le> length s"
  by (induction s arbitrary: g) (auto split: if_splits)

lemma re_match_suggested_shorter:
  "re_match_suggested s = Some (g, after) \<Longrightarrow> length after < length s"
proof -
  assume m: "re_match_suggested s = Some (g, after)"
  then have p: "prefix open_tag s"
    and l: "lazy_until close_tag (drop (length open_tag) s) = Some (g, after)"
    by (auto simp: re_match_suggested_def split: if_splits)
  from l have "length after \<le> length s - length open_tag"
    using lazy_until_shorter by fastforce
  moreover have "0 < length open_tag" by (simp add: open_tag_def ustr_def)
  moreover from p have "length open_tag \<le> length s" by (rule prefix_length_le)
  ultimately show ?thesis by linarith
qed

text \<open>
  \<open>re.sub(r'<suggested_text>.*?</suggested_text>', '', s, flags=re.DOTALL)\<close>: every
  non-overlapping match, found from the left, is removed.
\<close>

function re_sub_suggested :: "pystr \<Rightarrow> pystr" where
  "re_sub_suggested [] = []"
| "re_sub_suggested (c # cs) =
     (case re_match_suggested (c # cs) of
        Some (g, after) \<Rightarrow> re_sub_suggested after
      | None \<Rightarrow> c # re_sub_suggested cs)"
  by pat_completeness auto
termination
  by (relation "measure length") (auto dest: re_match_suggested_shorter)

section \<open>The store and the external model client\<close>

text \<open>
  \<open>models.py\<close>: an \<open>AITwin\<close> row and a \<open>Document\<close> object (its primary key, the fields the
  functions read, and the state of its relation \<open>twin\<close>). The \<open>OneToOneField\<close> makes the
  document the key of the twin table, so the table is a map from document keys to twins.
  Timestamps are not modelled. Documents are saved ones: they have a key.

  The accessor \<open>document.twin\<close> is Django's reverse one-to-one descriptor. It keeps what it
  found on the \<open>Document\<close> object and does not ask the database again: \<open>NotLoaded\<close> before
  the first read, \<open>Loaded None\<close> after a read that found no row, \<open>Loaded (Some twin)\<close> with
  the \<open>AITwin\<close> instance that was read, or that was created with \<open>document=document\<close>.
\<close>

record aitwin =
  content_ai :: pystr

datatype relation_cache = NotLoaded | Loaded "aitwin option"

record document =
  doc_id :: nat
  title :: pystr
  content :: pystr
  twin_cache :: relation_cache

type_synonym twin_table = "nat \<rightharpoonup> aitwin"

text \<open>
  The two statements of \<open>generate_twin_content\<close> that talk to the database, lines 92 and
  94, can raise (a lost connection, a locked database, a value the database refuses).
  \<open>Some msg\<close>: the statement raises an exception \<open>e\<close> with \<open>str(e) = msg\<close> and changes
  nothing; \<open>None\<close>: it does its work. Each statement is committed on its own, which is
  Django's default.
\<close>

record store_faults =
  get_or_create_fault :: "pystr option"
  save_fault :: "pystr option"

text \<open>
  \<open>AITwin.objects.get_or_create(document=document)\<close>: the table, the document object, the
  twin instance and the flag \<open>created\<close>. An existing row is read into a new instance and
  the document object is left as it is. A new row has \<open>content_ai = ''\<close>, and creating
  its instance with \<open>document=document\<close> stores that instance on the document object.
\<close>

definition get_or_create ::
  "pystr option \<Rightarrow> twin_table \<Rightarrow> document \<Rightarrow> pystr + (twin_table \<times> document \<times> aitwin \<times> bool)" where
  "get_or_create fault tbl d =
     (case fault of
        Some e \<Rightarrow> Inl e
      | None \<Rightarrow>
          (case tbl (doc_id d) of
             Some twin \<Rightarrow> Inr (tbl, d, twin, False)
           | None \<Rightarrow>
               Inr (tbl(doc_id d \<mapsto> \<lparr>content_ai = []\<rparr>),
                    d\<lparr>twin_cache := Loaded (Some \<lparr>content_ai = []\<rparr>)\<rparr>,
                    \<lparr>content_ai = []\<rparr>, True)))"

text \<open>\<open>twin.save()\<close> for the twin of document \<open>d\<close>.\<close>

definition save :: "pystr option \<Rightarrow> twin_table \<Rightarrow> document \<Rightarrow> aitwin \<Rightarrow> pystr + twin_table" where
  "save fault tbl d twin =
     (case fault of
        Some e \<Rightarrow> Inl e
      | None \<Rightarrow> Inr (tbl(doc_id d \<mapsto> twin)))"

text \<open>
  A call \<open>client.messages.create(model=..., max_tokens=..., system=..., messages=[...])\<close>
  followed by \<open>.content[0].text\<close>. The client is a parameter: it answers a request with
  \<open>Inr text\<close>, or with \<open>Inl msg\<close> when the call or the reading of the text raises an
  exception \<open>e\<close> with \<open>str(e) = msg\<close>. The module-level \<open>client\<close> is \<open>None\<close> when no API key
  is set. Every function returns, next to its result, the list of requests it issued.
\<close>

record request =
  model :: pystr
  max_tokens :: nat
  system :: "pystr option"
  messages :: "(pystr \<times> pystr) list"

type_synonym client = "request \<Rightarrow> pystr + pystr"

definition sonnet_model :: pystr where
  "sonnet_model = ustr ''claude-sonnet-4-20250514''"

section \<open>The Twin Generator\<close>

text \<open>
  The fixed block of line 43. The code points 9888 and 65039 are the warning sign and the
  variation selector that follows it in the source.
\<close>

definition api_key_warning :: pystr where
  \<open>api_key_warning =
     ustr ''## '' @ [9888, 65039] @ ustr '' API Key Not Configured\<newline>'' @
     ustr ''\<newline>'' @
     ustr ''Please set the `ANTHROPIC_API_KEY` environment variable to enable AI features.''\<close>

definition twin_prompt :: "pystr \<Rightarrow> pystr \<Rightarrow> pystr" where
  \<open>twin_prompt doc_title clean_content =
     ustr ''You are a Senior Software Architect and Technical Writer.\<newline>'' @
     ustr ''\<newline>'' @
     ustr ''Transform the following human-written project notes into a high-density, \<newline>'' @
     ustr ''structured Markdown document optimized for an LLM to understand a codebase or project.\<newline>'' @
     ustr ''\<newline>'' @
     ustr ''HUMAN NOTES:\<newline>'' @
     ustr ''---\<newline>'' @
     ustr ''Title: '' @ doc_title @ ustr ''\<newline>'' @
     ustr ''\<newline>'' @
     ustr ''Content:\<newline>'' @
     clean_content @ ustr ''\<newline>'' @
     ustr ''---\<newline>'' @
     ustr ''\<newline>'' @
     ustr ''OUTPUT REQUIREMENTS:\<newline>'' @
     ustr ''1. Use clear hierarchical headers:\<newline>'' @
     ustr ''   - ## Technical Context (what this is about)\<newline>'' @
     ustr ''   - ## Core Requirements (extracted as bullet points)\<newline>'' @
     ustr ''   - ## Data Structures (if any entities/models are mentioned)\<newline>'' @
     ustr ''   - ## Logic Flow (pseudocode if any processes are described)\<newline>'' @
     ustr ''   - ## Dependencies & Integrations (external systems, APIs)\<newline>'' @
     ustr ''   - ## Open Questions (uncertainties or TODOs)\<newline>'' @
     ustr ''\<newline>'' @
     ustr ''2. Extract ALL technical requirements into concise bullet points\<newline>'' @
     ustr ''3. If any logic or workflow is mentioned, represent it in pseudocode\<newline>'' @
     ustr ''4. Identify and list any data entities, their attributes, and relationships\<newline>'' @
     ustr ''5. Keep it CONCISE - no conversational filler, no repetition\<newline>'' @
     ustr ''6. Use code blocks for any technical specifications\<newline>'' @
     ustr ''7. If the content is too brief, note what information is missing\<newline>'' @
     ustr ''\<newline>'' @
     ustr ''IMPORTANT: Output ONLY the structured markdown. No preamble or explanation.''\<close>

definition twin_request :: "pystr \<Rightarrow> request" where
  "twin_request prompt =
     \<lparr>model = sonnet_model, max_tokens = 2048, system = None,
      messages = [(ustr ''user'', prompt)]\<rparr>"

definition generation_error :: "pystr \<Rightarrow> pystr" where
  \<open>generation_error e =
     ustr ''## '' @ [9888, 65039] @ ustr '' AI Generation Error\<newline>'' @
     ustr ''\<newline>'' @
     ustr ''Failed to generate AI Twin:\<newline>'' @
     ustr ''\<newline>'' @
     ustr ''```\<newline>'' @
     e @ ustr ''\<newline>'' @
     ustr ''```\<newline>'' @
     ustr ''\<newline>'' @
     ustr ''Please check your API key and try again.''\<close>

text \<open>
  \<open>generate_twin_content(document)\<close>, lines 24 to 101: the returned string, the document
  object and the twin table afterwards, and the requests issued. Lines 92 to 94 stand
  inside the \<open>try\<close>, so an exception of the model call and an exception of the database
  both end in the \<open>except Exception\<close> clause. A twin that \<open>get_or_create\<close> created is the
  instance held by the document object, so the assignment of line 93 shows through
  \<open>document.twin\<close>; a twin that it read is another instance.
\<close>

definition generate_twin_content ::
  "client option \<Rightarrow> store_faults \<Rightarrow> document \<Rightarrow> twin_table \<Rightarrow>
     pystr \<times> document \<times> twin_table \<times> request list" where
  "generate_twin_content cl faults d tbl =
     (case cl of
        None \<Rightarrow> (api_key_warning, d, tbl, [])
      | Some c \<Rightarrow>
          let clean_content = strip_tags (content d);
              prompt = twin_prompt (title d) clean_content;
              req = twin_request prompt
          in case c req of
               Inr ai_content \<Rightarrow>
                 (case get_or_create (get_or_create_fault faults) tbl d of
                    Inl e \<Rightarrow> (generation_error e, d, tbl, [req])
                  | Inr (tbl1, d1, twin, created) \<Rightarrow>
                      let twin1 = twin\<lparr>content_ai := ai_content\<rparr>;
                          d2 = (if created then d1\<lparr>twin_cache := Loaded (Some twin1)\<rparr> else d1)
                      in case save (save_fault faults) tbl1 d2 twin1 of
                           Inl e \<Rightarrow> (generation_error e, d2, tbl1, [req])
                         | Inr tbl2 \<Rightarrow> (ai_content, d2, tbl2, [req]))
             | Inl e \<Rightarrow> (generation_error e, d, tbl, [req]))"

text \<open>
  \<open>get_twin_content(document)\<close>, lines 104 to 117: the value and the document object
  afterwards. \<open>document.twin\<close> answers from the document object when the relation was
  read before, and queries the table otherwise. \<open>Inr None\<close> where \<open>AITwin.DoesNotExist\<close> is
  caught; \<open>Inl msg\<close> where the query raises another exception, which the function does not
  catch (\<open>query_fault = Some msg\<close>).
\<close>

definition get_twin_content ::
  "pystr option \<Rightarrow> document \<Rightarrow> twin_table \<Rightarrow> (pystr + pystr option) \<times> document" where
  "get_twin_content query_fault d tbl =
     (case twin_cache d of
        Loaded (Some twin) \<Rightarrow> (Inr (Some (content_ai twin)), d)
      | Loaded None \<Rightarrow> (Inr None, d)
      | NotLoaded \<Rightarrow>
          (case query_fault of
             Some e \<Rightarrow> (Inl e, d)
           | None \<Rightarrow>
               (case tbl (doc_id d) of
                  Some twin \<Rightarrow> (Inr (Some (content_ai twin)), d\<lparr>twin_cache := Loaded (Some twin)\<rparr>)
                | None \<Rightarrow> (Inr None, d\<lparr>twin_cache := Loaded None\<rparr>))))"

section \<open>The Selection Assistant\<close>

record assist_result =
  response :: pystr
  suggested_text :: "pystr option"

definition system_prompt :: pystr where
  \<open>system_prompt =
     ustr ''You are an intelligent writing assistant embedded in a document editor.\<newline>'' @
     ustr ''The user has selected some text and is asking you to help with it.\<newline>'' @
     ustr ''\<newline>'' @
     ustr ''Your capabilities:\<newline>'' @
     ustr ''1. Answer questions about the selected text\<newline>'' @
     ustr ''2. Suggest improvements, rewrites, or edits\<newline>'' @
     ustr ''3. Expand on ideas\<newline>'' @
     ustr ''4. Fix grammar, spelling, or style issues\<newline>'' @
     ustr ''5. Translate or change tone\<newline>'' @
     ustr ''6. Summarize or simplify\<newline>'' @
     ustr ''\<newline>'' @
     ustr ''CRITICAL RESPONSE FORMAT:\<newline>'' @
     ustr ''- If the user asks a QUESTION about the text (like "what does this mean?"), just provide a helpful answer.\<newline>'' @
     ustr ''- If the user wants you to MODIFY, IMPROVE, FIX, REWRITE, EXPAND, SHORTEN, or CHANGE the text in ANY way, you MUST:\<newline>'' @
     ustr ''  1. First give a brief explanation (1-2 sentences max) of what you changed\<newline>'' @
     ustr ''  2. Then provide the COMPLETE replacement text wrapped EXACTLY like this:\<newline>'' @
     ustr ''     <suggested_text>your replacement text here</suggested_text>\<newline>'' @
     ustr ''\<newline>'' @
     ustr ''IMPORTANT: \<newline>'' @
     ustr ''- The <suggested_text> tags are REQUIRED for any modification request\<newline>'' @
     ustr ''- Put the ENTIRE replacement text inside the tags, not just the changed parts\<newline>'' @
     ustr ''- Do not include any formatting or extra text inside the tags, just the plain replacement text\<newline>'' @
     ustr ''- Keep explanations brief - the user wants to see the result quickly''\<close>

definition user_message :: "pystr \<Rightarrow> pystr \<Rightarrow> pystr \<Rightarrow> pystr" where
  "user_message clean_selected clean_context user_prompt =
     (ustr ''SELECTED TEXT:\<newline>'' @
      ustr ''---\<newline>'' @
      clean_selected @ ustr ''\<newline>'' @
      ustr ''---\<newline>'' @
      ustr ''\<newline>'') @
     (if clean_context \<noteq> [] then
        ustr ''FULL DOCUMENT CONTEXT:\<newline>'' @
        ustr ''---\<newline>'' @
        clean_context @ ustr ''\<newline>'' @
        ustr ''---\<newline>'' @
        ustr ''\<newline>''
      else []) @
     (ustr ''USER REQUEST: '' @ user_prompt)"

definition not_configured :: assist_result where
  "not_configured =
     \<lparr>response = ustr ''API key not configured. Please set the ANTHROPIC_API_KEY environment variable.'',
      suggested_text = None\<rparr>"

definition modification_keywords :: "pystr list" where
  "modification_keywords =
     map ustr [''improve'', ''fix'', ''rewrite'', ''change'', ''make'', ''shorten'', ''expand'',
               ''grammar'', ''spelling'', ''professional'', ''clearer'', ''concise'', ''better'',
               ''translate'', ''simplify'', ''formal'', ''casual'', ''correct'', ''edit'']"

text \<open>
  \<open>any(kw in user_prompt.lower() for kw in modification_keywords)\<close>. \<open>str.lower\<close> follows
  the Unicode case mappings, a table of the Python runtime; it is the parameter \<open>lower\<close>.
  \<open>ascii_lower\<close> is that function on strings of ASCII code points.
\<close>

definition is_modification_request :: "(pystr \<Rightarrow> pystr) \<Rightarrow> pystr \<Rightarrow> bool" where
  "is_modification_request lower user_prompt =
     list_ex (\<lambda>kw. contains (lower user_prompt) kw) modification_keywords"

definition ascii_lower :: "pystr \<Rightarrow> pystr" where
  "ascii_lower s = map (\<lambda>c. if 65 \<le> c \<and> c \<le> 90 then c + 32 else c) s"

definition primary_request :: "pystr \<Rightarrow> request" where
  "primary_request msg =
     \<lparr>model = sonnet_model, max_tokens = 1024, system = Some system_prompt,
      messages = [(ustr ''user'', msg)]\<rparr>"

definition extraction_prompt :: "pystr \<Rightarrow> pystr \<Rightarrow> pystr" where
  "extraction_prompt clean_selected response_text =
     ustr ''Based on this AI response about modifying text, extract ONLY the suggested replacement text.\<newline>'' @
     ustr ''\<newline>'' @
     ustr ''ORIGINAL TEXT: '' @ clean_selected @ ustr ''\<newline>'' @
     ustr ''\<newline>'' @
     ustr ''AI RESPONSE: '' @ response_text @ ustr ''\<newline>'' @
     ustr ''\<newline>'' @
     ustr ''Return ONLY the replacement text that should replace the original. No explanation, no quotes, just the raw replacement text. If there's no clear replacement suggested, return exactly: NO_REPLACEMENT''"

definition extraction_request :: "pystr \<Rightarrow> request" where
  "extraction_request prompt =
     \<lparr>model = sonnet_model, max_tokens = 512, system = None,
      messages = [(ustr ''user'', prompt)]\<rparr>"

text \<open>
  Lines 205 to 210: \<open>suggested_text\<close> and the displayed \<open>response_text\<close> after the search
  for the delimiters.
\<close>

definition extract_suggested :: "pystr \<Rightarrow> pystr option \<times> pystr" where
  "extract_suggested response_text =
     (case re_search_suggested response_text of
        Some (before, g, after) \<Rightarrow> (Some (strip g), strip (re_sub_suggested response_text))
      | None \<Rightarrow> (None, response_text))"

text \<open>Python's \<open>not suggested_text\<close>: true of \<open>None\<close> and of the empty string.\<close>

definition falsy :: "pystr option \<Rightarrow> bool" where
  "falsy v = (case v of None \<Rightarrow> True | Some t \<Rightarrow> t = [])"

text \<open>
  The body of the \<open>try\<close> block of \<open>ai_assist_text\<close>, lines 193 to 236. \<open>Inl msg\<close>: an
  exception with \<open>str(e) = msg\<close> left the block; \<open>Inr r\<close>: the block returned \<open>r\<close>.
\<close>

definition assist_try ::
  "client \<Rightarrow> bool \<Rightarrow> pystr \<Rightarrow> pystr \<Rightarrow> (pystr + assist_result) \<times> request list" where
  "assist_try c is_modification clean_selected msg =
     (let req1 = primary_request msg in
      case c req1 of
        Inl e \<Rightarrow> (Inl e, [req1])
      | Inr raw \<Rightarrow>
          let (suggested, response_text) = extract_suggested raw in
          if falsy suggested \<and> is_modification then
            let req2 = extraction_request (extraction_prompt clean_selected response_text) in
            case c req2 of
              Inl e \<Rightarrow> (Inl e, [req1, req2])
            | Inr raw2 \<Rightarrow>
                let extracted = strip raw2;
                    suggested2 =
                      (if extracted \<noteq> [] \<and> extracted \<noteq> ustr ''NO_REPLACEMENT'' \<and> length extracted > 3
                       then Some extracted else suggested)
                in (Inr \<lparr>response = response_text, suggested_text = suggested2\<rparr>, [req1, req2])
          else (Inr \<lparr>response = response_text, suggested_text = suggested\<rparr>, [req1]))"

text \<open>
  \<open>ai_assist_text(selected_text, user_prompt, full_context="")\<close>, lines 120 to 242: the
  returned dict and the requests issued. The \<open>except Exception\<close> clause turns an exception
  into a result.
\<close>

definition ai_assist_text ::
  "(pystr \<Rightarrow> pystr) \<Rightarrow> client option \<Rightarrow> pystr \<Rightarrow> pystr \<Rightarrow> pystr \<Rightarrow> assist_result \<times> request list" where
  "ai_assist_text lower cl selected_text user_prompt full_context =
     (let clean_selected = strip_tags selected_text;
          clean_context = (if full_context \<noteq> [] then strip_tags full_context else []);
          msg = user_message clean_selected clean_context user_prompt
      in case cl of
           None \<Rightarrow> (not_configured, [])
         | Some c \<Rightarrow>
             let is_modification = is_modification_request lower user_prompt in
             case assist_try c is_modification clean_selected msg of
               (Inr result, calls) \<Rightarrow> (result, calls)
             | (Inl e, calls) \<Rightarrow>
                 (\<lparr>response = ustr ''Error: '' @ e, suggested_text = None\<rparr>, calls))"

section \<open>Example inputs\<close>

definition demo_doc :: document where
  "demo_doc = \<lparr>doc_id = 1, title = ustr ''Login flow'',
      content = ustr ''<p>User enters email and password, we check DB</p>'',
      twin_cache = NotLoaded\<rparr>"

definition new_doc :: document where
  "new_doc = \<lparr>doc_id = 2, title = ustr ''Notes'', content = ustr ''todo'',
      twin_cache = Loaded None\<rparr>"

definition no_faults :: store_faults where
  "no_faults = \<lparr>get_or_create_fault = None, save_fault = None\<rparr>"

definition locked_store :: store_faults where
  "locked_store = \<lparr>get_or_create_fault = None, save_fault = Some (ustr ''database is locked'')\<rparr>"

definition demo_table :: twin_table where
  "demo_table = [1 \<mapsto> \<lparr>content_ai = ustr ''## old twin''\<rparr>]"

definition ok_client :: client where
  "ok_client req = Inr (ustr ''## Technical Context'')"

definition failing_client :: client where
  "failing_client req = Inl (ustr ''Connection error.'')"

text \<open>
  A client that answers the primary request (the one with a system prompt) with
  \<open>primary\<close> and the extraction request with \<open>fallback\<close>.
\<close>

definition scripted_client :: "pystr + pystr \<Rightarrow> pystr + pystr \<Rightarrow> client" where
  "scripted_client primary fallback req = (if system req = None then fallback else primary)"

definition sample_selected :: pystr where
  "sample_selected = ustr ''The app is fast''"

definition fix_prompt :: pystr where
  "fix_prompt = ustr ''fix the grammar''"

definition question_prompt :: pystr where
  "question_prompt = ustr ''what does this mean?''"

definition untagged_response :: pystr where
  "untagged_response = ustr ''The app runs fast.''"

definition empty_span_response :: pystr where
  "empty_span_response = ustr ''Done. <suggested_text> </suggested_text>''"

section \<open>Markup stripping removes exactly the tag spans\<close>

lemma map_filter_nths:
  "map (\<lambda>k. s ! k) (filter P [0..<length s]) = nths s {k. P k}"
proof (induction s rule: rev_induct)
  case Nil
  show ?case by simp
next
  case (snoc x xs)
  have "map (\<lambda>k. (xs @ [x]) ! k) (filter P [0..<length xs]) = map (\<lambda>k. xs ! k) (filter P [0..<length xs])"
    by (rule map_cong) (auto simp: nth_append)
  with snoc show ?case
    by (simp add: nths_append)
qed

lemma re_match_tag_Some:
  "re_match_tag s = Some after \<longleftrightarrow>
     (\<exists>body. s = lt_sign # body @ gt_sign # after \<and> body \<noteq> [] \<and> gt_sign \<notin> set body)"
proof
  assume m: "re_match_tag s = Some after"
  then obtain cs g where s: "s = lt_sign # cs"
    and t: "takeWhile (\<lambda>x. x \<noteq> gt_sign) cs \<noteq> []"
    and d: "dropWhile (\<lambda>x. x \<noteq> gt_sign) cs = g # after"
    by (auto simp: re_match_tag_def split: list.splits if_splits)
  from d have g: "g = gt_sign"
    using hd_dropWhile [of "\<lambda>x. x \<noteq> gt_sign" cs] by auto
  have "cs = takeWhile (\<lambda>x. x \<noteq> gt_sign) cs @ dropWhile (\<lambda>x. x \<noteq> gt_sign) cs"
    by simp
  with d g have "cs = takeWhile (\<lambda>x. x \<noteq> gt_sign) cs @ gt_sign # after" by simp
  moreover have "gt_sign \<notin> set (takeWhile (\<lambda>x. x \<noteq> gt_sign) cs)"
    by (auto dest: set_takeWhileD)
  ultimately show "\<exists>body. s = lt_sign # body @ gt_sign # after \<and> body \<noteq> [] \<and> gt_sign \<notin> set body"
    using s t by blast
next
  assume "\<exists>body. s = lt_sign # body @ gt_sign # after \<and> body \<noteq> [] \<and> gt_sign \<notin> set body"
  then obtain body where s: "s = lt_sign # body @ gt_sign # after"
    and b: "body \<noteq> []" "gt_sign \<notin> set body" by blast
  from b have all: "\<forall>x \<in> set body. x \<noteq> gt_sign" by blast
  from all have "takeWhile (\<lambda>x. x \<noteq> gt_sign) (body @ gt_sign # after) = body"
    by (simp add: takeWhile_tail)
  moreover from all have "dropWhile (\<lambda>x. x \<noteq> gt_sign) (body @ gt_sign # after) = gt_sign # after"
    by (simp add: dropWhile_append2)
  ultimately show "re_match_tag s = Some after"
    using s b by (simp add: re_match_tag_def)
qed

lemma tag_span_0_match:
  assumes "tag_span (c # cs) 0 j"
  shows "re_match_tag (c # cs) \<noteq> None"
proof -
  from assms have c: "c = lt_sign" and j: "Suc 0 < j" "j < Suc (length cs)"
    and g: "(c # cs) ! j = gt_sign" and n: "\<forall>m \<in> {0<..<j}. (c # cs) ! m \<noteq> gt_sign"
    by (auto simp: tag_span_def)
  obtain j' where j': "j = Suc j'" using j by (cases j) auto
  with j g have g': "cs ! j' = gt_sign" "j' < length cs" "0 < j'" by auto
  have nb: "\<forall>m < j'. cs ! m \<noteq> gt_sign"
  proof (intro allI impI)
    fix m assume "m < j'"
    then have "Suc m \<in> {0<..<j}" using j' by auto
    with n have "(c # cs) ! Suc m \<noteq> gt_sign" by blast
    then show "cs ! m \<noteq> gt_sign" by simp
  qed
  have cs: "cs = take j' cs @ gt_sign # drop (Suc j') cs"
    using g' by (metis id_take_nth_drop)
  have "gt_sign \<notin> set (take j' cs)"
    using nb g' by (auto simp: in_set_conv_nth)
  moreover have "take j' cs \<noteq> []" using g' by auto
  ultimately have "re_match_tag (lt_sign # take j' cs @ gt_sign # drop (Suc j') cs) = Some (drop (Suc j') cs)"
    by (subst re_match_tag_Some) blast
  with cs c show ?thesis by simp
qed

lemma tag_span_shift:
  "tag_span (pre @ s) (length pre + i) (length pre + j) = tag_span s i j"
proof -
  have "(\<forall>m \<in> {length pre + i<..<length pre + j}. (pre @ s) ! m \<noteq> gt_sign) \<longleftrightarrow>
        (\<forall>m \<in> {i<..<j}. s ! m \<noteq> gt_sign)"
  proof
    assume a: "\<forall>m \<in> {length pre + i<..<length pre + j}. (pre @ s) ! m \<noteq> gt_sign"
    show "\<forall>m \<in> {i<..<j}. s ! m \<noteq> gt_sign"
    proof
      fix m assume "m \<in> {i<..<j}"
      then have "length pre + m \<in> {length pre + i<..<length pre + j}" by simp
      with a have "(pre @ s) ! (length pre + m) \<noteq> gt_sign" by blast
      then show "s ! m \<noteq> gt_sign" by simp
    qed
  next
    assume a: "\<forall>m \<in> {i<..<j}. s ! m \<noteq> gt_sign"
    show "\<forall>m \<in> {length pre + i<..<length pre + j}. (pre @ s) ! m \<noteq> gt_sign"
    proof
      fix m assume m: "m \<in> {length pre + i<..<length pre + j}"
      then have "m - length pre \<in> {i<..<j}" by auto
      with a have "s ! (m - length pre) \<noteq> gt_sign" by blast
      with m show "(pre @ s) ! m \<noteq> gt_sign" by (simp add: nth_append)
    qed
  qed
  then show ?thesis
    by (simp add: tag_span_def)
qed


lemma lt_neq_gt: "lt_sign \<noteq> gt_sign"
  by (simp add: lt_sign_def gt_sign_def)

lemma in_tagI: "i \<le> k \<Longrightarrow> k \<le> j \<Longrightarrow> j < length s \<Longrightarrow> tag_span s i j \<Longrightarrow> in_tag s k"
  unfolding in_tag_def by (rule bexI [of _ i], rule bexI [of _ j]) simp_all

lemma in_tag_unmatched_0:
  "re_match_tag (c # cs) = None \<Longrightarrow> \<not> in_tag (c # cs) 0"
  using tag_span_0_match [of c cs] by (auto simp: in_tag_def)

lemma in_tag_unmatched_Suc:
  assumes "re_match_tag (c # cs) = None"
  shows "in_tag (c # cs) (Suc k) = in_tag cs k"
proof
  assume "in_tag (c # cs) (Suc k)"
  then obtain i j where i: "i \<le> Suc k" and j: "Suc k \<le> j" "j < Suc (length cs)"
    and sp: "tag_span (c # cs) i j"
    by (auto simp: in_tag_def)
  have "i \<noteq> 0"
  proof
    assume "i = 0"
    with sp have "tag_span (c # cs) 0 j" by simp
    with assms show False using tag_span_0_match [of c cs j] by simp
  qed
  then obtain i' where i': "i = Suc i'" by (cases i) auto
  from j obtain j' where j': "j = Suc j'" by (cases j) auto
  from sp have "tag_span cs i' j'"
    using tag_span_shift [of "[c]" cs i' j'] by (simp add: i' j')
  with i j show "in_tag cs k"
    by (intro in_tagI [of i' k j']) (simp_all add: i' j')
next
  assume "in_tag cs k"
  then obtain i j where i: "i \<le> k" and j: "k \<le> j" "j < length cs" and sp: "tag_span cs i j"
    by (auto simp: in_tag_def)
  from sp have "tag_span (c # cs) (Suc i) (Suc j)"
    using tag_span_shift [of "[c]" cs i j] by simp
  with i j show "in_tag (c # cs) (Suc k)"
    by (intro in_tagI [of "Suc i" _ "Suc j"]) simp_all
qed

lemma tag_span_matched:
  assumes "body \<noteq> []" "gt_sign \<notin> set body"
  shows "tag_span ((lt_sign # body @ [gt_sign]) @ after) 0 (Suc (length body))"
proof -
  have "\<forall>m \<in> {0<..<Suc (length body)}. ((lt_sign # body @ [gt_sign]) @ after) ! m \<noteq> gt_sign"
  proof
    fix m assume "m \<in> {0<..<Suc (length body)}"
    then obtain m' where m': "m = Suc m'" "m' < length body" by (cases m) auto
    then have "((lt_sign # body @ [gt_sign]) @ after) ! m = body ! m'"
      by (simp add: nth_append)
    with assms m' show "((lt_sign # body @ [gt_sign]) @ after) ! m \<noteq> gt_sign"
      by (metis nth_mem)
  qed
  moreover have "((lt_sign # body @ [gt_sign]) @ after) ! Suc (length body) = gt_sign"
    by (simp add: nth_append)
  ultimately show ?thesis
    using assms by (simp add: tag_span_def)
qed

lemma in_tag_matched_inside:
  assumes "body \<noteq> []" "gt_sign \<notin> set body" "k < length (lt_sign # body @ [gt_sign])"
  shows "in_tag ((lt_sign # body @ [gt_sign]) @ after) k"
  using tag_span_matched [OF assms(1,2), of after] assms(3)
  by (intro in_tagI [of 0 _ "Suc (length body)"]) simp_all

lemma in_tag_matched_after:
  assumes "body \<noteq> []" "gt_sign \<notin> set body"
  shows "in_tag ((lt_sign # body @ [gt_sign]) @ after) (k + length (lt_sign # body @ [gt_sign]))
         = in_tag after k"
proof
  let ?pre = "lt_sign # body @ [gt_sign]"
  assume "in_tag (?pre @ after) (k + length ?pre)"
  then obtain i j where i: "i \<le> k + length ?pre" and j: "k + length ?pre \<le> j" "j < length (?pre @ after)"
    and sp: "tag_span (?pre @ after) i j"
    unfolding in_tag_def by auto
  have "length ?pre \<le> i"
  proof (rule ccontr)
    assume "\<not> length ?pre \<le> i"
    then have "i \<le> Suc (length body)" by simp
    then consider "i = Suc (length body)" | "i < Suc (length body)" by linarith
    then show False
    proof cases
      case 1
      then have "(?pre @ after) ! i = gt_sign" by (simp add: nth_append)
      moreover from sp have "(?pre @ after) ! i = lt_sign" by (simp add: tag_span_def)
      ultimately show False using lt_neq_gt by simp
    next
      case 2
      with j have "Suc (length body) \<in> {i<..<j}" by simp
      with sp have "(?pre @ after) ! Suc (length body) \<noteq> gt_sign"
        unfolding tag_span_def by blast
      then show False by (simp add: nth_append)
    qed
  qed
  then obtain i' where i': "i = length ?pre + i'" using le_Suc_ex by blast
  from j obtain j' where j': "j = length ?pre + j'" using le_Suc_ex
    by (metis add.commute le_add2 le_trans)
  from sp have "tag_span after i' j'"
    unfolding i' j' by (simp only: tag_span_shift)
  moreover from i j have "i' \<le> k" "k \<le> j'" "j' < length after"
    unfolding i' j' by simp_all
  ultimately show "in_tag after k"
    by (intro in_tagI [of i' _ j'])
next
  let ?pre = "lt_sign # body @ [gt_sign]"
  assume "in_tag after k"
  then obtain i j where i: "i \<le> k" and j: "k \<le> j" "j < length after" and sp: "tag_span after i j"
    by (auto simp: in_tag_def)
  from sp have "tag_span (?pre @ after) (length ?pre + i) (length ?pre + j)"
    by (simp only: tag_span_shift)
  with i j show "in_tag (?pre @ after) (k + length ?pre)"
    by (intro in_tagI [of "length ?pre + i" _ "length ?pre + j"]) simp_all
qed

lemma nths_none: "(\<forall>i < length xs. i \<notin> A) \<Longrightarrow> nths xs A = []"
  by (auto simp: nths_def filter_empty_conv dest: set_zip_rightD)

lemma strip_tags_spec_nths: "strip_tags_spec s = nths s {k. \<not> in_tag s k}"
  by (simp add: strip_tags_spec_def map_filter_nths)

lemma strip_tags_spec_unmatched:
  assumes "re_match_tag (c # cs) = None"
  shows "strip_tags_spec (c # cs) = c # strip_tags_spec cs"
  using in_tag_unmatched_0 [OF assms] in_tag_unmatched_Suc [OF assms]
  by (simp add: strip_tags_spec_nths nths_Cons)

lemma strip_tags_spec_matched:
  assumes "re_match_tag (c # cs) = Some after"
  shows "strip_tags_spec (c # cs) = strip_tags_spec after"
proof -
  from assms obtain body where s: "c # cs = (lt_sign # body @ [gt_sign]) @ after"
    and b: "body \<noteq> []" "gt_sign \<notin> set body"
    by (auto simp: re_match_tag_Some)
  let ?pre = "lt_sign # body @ [gt_sign]"
  let ?A = "{k. \<not> in_tag (?pre @ after) k}"
  have "nths ?pre ?A = []"
    using in_tag_matched_inside [OF b, of _ after] by (intro nths_none) simp
  moreover have "{j. j + length ?pre \<in> ?A} = {k. \<not> in_tag after k}"
    using in_tag_matched_after [OF b, of after] by (simp only: mem_Collect_eq)
  ultimately have "nths (?pre @ after) ?A = nths after {k. \<not> in_tag after k}"
    by (simp only: nths_append append_Nil)
  then show ?thesis
    by (simp only: s strip_tags_spec_nths)
qed

lemma strip_tags_eq_spec: "strip_tags s = strip_tags_spec s"
proof (induction s rule: strip_tags.induct)
  case 1
  show ?case by (simp add: strip_tags_spec_def)
next
  case (2 c cs)
  show ?case
  proof (cases "re_match_tag (c # cs)")
    case None
    with 2 show ?thesis by (simp add: strip_tags_spec_unmatched)
  next
    case (Some after)
    with 2 show ?thesis by (simp add: strip_tags_spec_matched)
  qed
qed

lemma assist_first_call:
  "\<exists>rest. snd (assist_try c flag sel msg) = primary_request msg # rest"
  by (auto simp: assist_try_def Let_def split: sum.splits prod.splits)

text \<open>
  Claim C9. Sanitization removes every tag span (from a \<open><\<close> to the next \<open>>\<close>, with at
  least one code point between them) and keeps every code point outside the tag spans,
  unchanged and in order: the result lists the code points at the positions that lie in
  no tag span. The Twin Generator puts the content so stripped into its prompt, and the
  Selection Assistant the selected text and the context so stripped into its message.
\<close>

theorem strip_tags_removes_tag_spans:
  "strip_tags s = map (\<lambda>k. s ! k) (filter (\<lambda>k. \<not> in_tag s k) [0..<length s])
   \<and> snd (snd (snd (generate_twin_content (Some c) faults d tbl))) =
       [twin_request (twin_prompt (title d) (strip_tags_spec (content d)))]
   \<and> hd (snd (ai_assist_text lower (Some c) sel p ctx)) =
       primary_request (user_message (strip_tags_spec sel) (strip_tags_spec ctx) p)"
proof (intro conjI)
  show "strip_tags s = map (\<lambda>k. s ! k) (filter (\<lambda>k. \<not> in_tag s k) [0..<length s])"
    using strip_tags_eq_spec [of s] by (simp add: strip_tags_spec_def)
  show "snd (snd (snd (generate_twin_content (Some c) faults d tbl))) =
       [twin_request (twin_prompt (title d) (strip_tags_spec (content d)))]"
    by (simp add: generate_twin_content_def Let_def strip_tags_eq_spec
        split: sum.splits prod.splits)
  obtain rest where "snd (assist_try c (is_modification_request lower p) (strip_tags sel)
      (user_message (strip_tags sel) (strip_tags ctx) p)) =
      primary_request (user_message (strip_tags sel) (strip_tags ctx) p) # rest"
    using assist_first_call by blast
  then show "hd (snd (ai_assist_text lower (Some c) sel p ctx)) =
       primary_request (user_message (strip_tags_spec sel) (strip_tags_spec ctx) p)"
    by (auto simp: ai_assist_text_def Let_def strip_tags_eq_spec [symmetric] split: sum.splits prod.splits)
qed

theorem strip_tags_removes_tag_spans_witness:
  "tag_span (ustr ''<b>text</b>'') 0 2
   \<and> strip_tags (ustr ''<b>text</b>'') = ustr ''text''
   \<and> map (\<lambda>k. ustr ''<b>text</b>'' ! k)
        (filter (\<lambda>k. \<not> in_tag (ustr ''<b>text</b>'') k) [0..<length (ustr ''<b>text</b>'')])
       = ustr ''text''"
proof -
  have a: "tag_span (ustr ''<b>text</b>'') 0 2"
    by (simp add: tag_span_def ustr_def lt_sign_def gt_sign_def numeral_2_eq_2
        greaterThanLessThan_def)
  have b: "strip_tags (ustr ''<b>text</b>'') = ustr ''text''"
    by (simp add: ustr_def re_match_tag_def lt_sign_def gt_sign_def)
  from strip_tags_removes_tag_spans [of "ustr ''<b>text</b>''"]
  have "strip_tags (ustr ''<b>text</b>'') = map (\<lambda>k. ustr ''<b>text</b>'' ! k)
        (filter (\<lambda>k. \<not> in_tag (ustr ''<b>text</b>'') k) [0..<length (ustr ''<b>text</b>'')])"
    by (rule conjunct1)
  with a b show ?thesis by metis
qed

section \<open>Properties of the Twin Generator\<close>

lemma update_content_ai: "twin\<lparr>content_ai := x\<rparr> = \<lparr>content_ai = x\<rparr>"
  by (cases twin) simp

lemma ok_client_demo:
  "ok_client (twin_request (twin_prompt (title demo_doc) (strip_tags (content demo_doc))))
     = Inr (ustr ''## Technical Context'')"
  by (simp add: ok_client_def)

lemma demo_twin_before:
  "fst (get_twin_content None demo_doc demo_table) = Inr (Some (ustr ''## old twin''))"
  by (simp add: get_twin_content_def demo_doc_def demo_table_def)

lemma generate_returns_text:
  assumes "c (twin_request (twin_prompt (title d) (strip_tags (content d)))) = Inr txt"
    and "get_or_create_fault faults = None" and "save_fault faults = None"
  shows "generate_twin_content (Some c) faults d tbl =
           (txt,
            (if tbl (doc_id d) = None then d\<lparr>twin_cache := Loaded (Some \<lparr>content_ai = txt\<rparr>)\<rparr> else d),
            tbl(doc_id d \<mapsto> \<lparr>content_ai = txt\<rparr>),
            [twin_request (twin_prompt (title d) (strip_tags (content d)))])"
  using assms
  by (auto simp: generate_twin_content_def get_or_create_def save_def Let_def update_content_ai
      split: option.splits)

lemma generate_save_fails:
  assumes "c (twin_request (twin_prompt (title d) (strip_tags (content d)))) = Inr txt"
    and "get_or_create_fault faults = None" and "save_fault faults = Some e"
    and "tbl (doc_id d) = Some twin"
  shows "generate_twin_content (Some c) faults d tbl =
           (generation_error e, d, tbl,
            [twin_request (twin_prompt (title d) (strip_tags (content d)))])"
  using assms
  by (simp add: generate_twin_content_def get_or_create_def save_def Let_def)

text \<open>
  Claim C3, as amended. When the model call returns a text and neither statement of the
  upsert raises, \<open>generate_twin_content\<close> returns that text and the twin row of the
  document is created or overwritten with it. A following \<open>get_twin_content\<close> on the same
  document object, whose query does not raise, returns exactly that text, provided the
  relation \<open>twin\<close> of the object had not been read before the generation or the row was
  created by it.
\<close>

theorem generate_twin_persists:
  assumes "c (twin_request (twin_prompt (title d) (strip_tags (content d)))) = Inr txt"
    and "get_or_create_fault faults = None"
    and "save_fault faults = None"
    and "twin_cache d = NotLoaded \<or> tbl (doc_id d) = None"
  shows "fst (generate_twin_content (Some c) faults d tbl) = txt
       \<and> fst (snd (snd (generate_twin_content (Some c) faults d tbl)))
           = tbl(doc_id d \<mapsto> \<lparr>content_ai = txt\<rparr>)
       \<and> fst (get_twin_content None
                 (fst (snd (generate_twin_content (Some c) faults d tbl)))
                 (fst (snd (snd (generate_twin_content (Some c) faults d tbl)))))
           = Inr (Some (fst (generate_twin_content (Some c) faults d tbl)))"
  using assms(4)
  by (auto simp: generate_returns_text [where c = c, OF assms(1,2,3)] get_twin_content_def)

theorem generate_twin_persists_witness:
  "fst (get_twin_content None demo_doc demo_table) = Inr (Some (ustr ''## old twin''))
   \<and> fst (generate_twin_content (Some ok_client) no_faults demo_doc demo_table)
       = ustr ''## Technical Context''
   \<and> fst (get_twin_content None
             (fst (snd (generate_twin_content (Some ok_client) no_faults demo_doc demo_table)))
             (fst (snd (snd (generate_twin_content (Some ok_client) no_faults demo_doc demo_table)))))
       = Inr (Some (ustr ''## Technical Context''))
   \<and> fst (get_twin_content None
             (fst (snd (generate_twin_content (Some ok_client) no_faults new_doc demo_table)))
             (fst (snd (snd (generate_twin_content (Some ok_client) no_faults new_doc demo_table)))))
       = Inr (Some (ustr ''## Technical Context''))"
proof -
  have f: "get_or_create_fault no_faults = None" "save_fault no_faults = None"
    by (simp_all add: no_faults_def)
  have c1: "twin_cache demo_doc = NotLoaded \<or> demo_table (doc_id demo_doc) = None"
    by (simp add: demo_doc_def)
  have h2: "ok_client (twin_request (twin_prompt (title new_doc) (strip_tags (content new_doc))))
     = Inr (ustr ''## Technical Context'')"
    by (simp add: ok_client_def)
  have c2: "twin_cache new_doc = NotLoaded \<or> demo_table (doc_id new_doc) = None"
    by (simp add: new_doc_def demo_table_def)
  note r1 = generate_twin_persists
    [where c = ok_client and d = demo_doc and tbl = demo_table and faults = no_faults,
     OF ok_client_demo f c1]
  note r2 = generate_twin_persists
    [where c = ok_client and d = new_doc and tbl = demo_table and faults = no_faults,
     OF h2 f c2]
  from r1 have a: "fst (generate_twin_content (Some ok_client) no_faults demo_doc demo_table)
       = ustr ''## Technical Context''"
    by (rule conjunct1)
  from r2 have b: "fst (generate_twin_content (Some ok_client) no_faults new_doc demo_table)
       = ustr ''## Technical Context''"
    by (rule conjunct1)
  from r1 have "fst (get_twin_content None
             (fst (snd (generate_twin_content (Some ok_client) no_faults demo_doc demo_table)))
             (fst (snd (snd (generate_twin_content (Some ok_client) no_faults demo_doc demo_table)))))
       = Inr (Some (fst (generate_twin_content (Some ok_client) no_faults demo_doc demo_table)))"
    by blast
  moreover from r2 have "fst (get_twin_content None
             (fst (snd (generate_twin_content (Some ok_client) no_faults new_doc demo_table)))
             (fst (snd (snd (generate_twin_content (Some ok_client) no_faults new_doc demo_table)))))
       = Inr (Some (fst (generate_twin_content (Some ok_client) no_faults new_doc demo_table)))"
    by blast
  ultimately show ?thesis using a b demo_twin_before by metis
qed

text \<open>
  Claim C3 as stated fails: the model call returns \<open>## Technical Context\<close>, but saving
  the twin raises \<open>database is locked\<close>. The function returns the error block, the stored
  twin stays \<open>## old twin\<close>, and \<open>get_twin_content\<close> returns the old twin, not the string
  that was returned.
\<close>

theorem persistence_failure_returns_error_block:
  "ok_client (twin_request (twin_prompt (title demo_doc) (strip_tags (content demo_doc))))
     = Inr (ustr ''## Technical Context'')
   \<and> fst (generate_twin_content (Some ok_client) locked_store demo_doc demo_table)
       = generation_error (ustr ''database is locked'')
   \<and> fst (snd (snd (generate_twin_content (Some ok_client) locked_store demo_doc demo_table)))
       = demo_table
   \<and> fst (get_twin_content None
             (fst (snd (generate_twin_content (Some ok_client) locked_store demo_doc demo_table)))
             (fst (snd (snd (generate_twin_content (Some ok_client) locked_store demo_doc demo_table)))))
       = Inr (Some (ustr ''## old twin''))
   \<and> Inr (Some (ustr ''## old twin''))
       \<noteq> (Inr (Some (fst (generate_twin_content (Some ok_client) locked_store demo_doc demo_table)))
            :: pystr + pystr option)"
proof -
  have f: "get_or_create_fault locked_store = None"
    "save_fault locked_store = Some (ustr ''database is locked'')"
    by (simp_all add: locked_store_def)
  have t: "demo_table (doc_id demo_doc) = Some \<lparr>content_ai = ustr ''## old twin''\<rparr>"
    by (simp add: demo_doc_def demo_table_def)
  have g: "generate_twin_content (Some ok_client) locked_store demo_doc demo_table =
      (generation_error (ustr ''database is locked''), demo_doc, demo_table,
       [twin_request (twin_prompt (title demo_doc) (strip_tags (content demo_doc)))])"
    using ok_client_demo f t by (rule generate_save_fails)
  have "length (ustr ''## old twin'') \<noteq> length (generation_error (ustr ''database is locked''))"
    by (simp add: generation_error_def ustr_def)
  then have n: "ustr ''## old twin'' \<noteq> generation_error (ustr ''database is locked'')"
    by auto
  show ?thesis
    using ok_client_demo demo_twin_before n by (simp add: g)
qed

text \<open>
  The relation cache. A document object whose relation \<open>twin\<close> was read before the
  generation keeps the instance it read: after a generation that overwrites the row,
  \<open>get_twin_content\<close> on that object still returns the old twin. The views load a new
  document object for every request.
\<close>

lemma stale_relation_after_generation:
  "fst (generate_twin_content (Some ok_client) no_faults
          (snd (get_twin_content None demo_doc demo_table)) demo_table)
     = ustr ''## Technical Context''
   \<and> fst (snd (snd (generate_twin_content (Some ok_client) no_faults
          (snd (get_twin_content None demo_doc demo_table)) demo_table))) (doc_id demo_doc)
     = Some \<lparr>content_ai = ustr ''## Technical Context''\<rparr>
   \<and> fst (get_twin_content None
          (fst (snd (generate_twin_content (Some ok_client) no_faults
             (snd (get_twin_content None demo_doc demo_table)) demo_table)))
          (fst (snd (snd (generate_twin_content (Some ok_client) no_faults
             (snd (get_twin_content None demo_doc demo_table)) demo_table)))))
     = Inr (Some (ustr ''## old twin''))"
proof -
  let ?d = "snd (get_twin_content None demo_doc demo_table)"
  have d: "?d = demo_doc\<lparr>twin_cache := Loaded (Some \<lparr>content_ai = ustr ''## old twin''\<rparr>)\<rparr>"
    by (simp add: get_twin_content_def demo_doc_def demo_table_def)
  have h: "ok_client (twin_request (twin_prompt (title ?d) (strip_tags (content ?d))))
     = Inr (ustr ''## Technical Context'')"
    by (simp add: ok_client_def)
  have f: "get_or_create_fault no_faults = None" "save_fault no_faults = None"
    by (simp_all add: no_faults_def)
  have t: "demo_table (doc_id ?d) \<noteq> None"
    unfolding d by (simp add: demo_doc_def demo_table_def)
  have g: "generate_twin_content (Some ok_client) no_faults ?d demo_table =
      (ustr ''## Technical Context'', ?d,
       demo_table(doc_id ?d \<mapsto> \<lparr>content_ai = ustr ''## Technical Context''\<rparr>),
       [twin_request (twin_prompt (title ?d) (strip_tags (content ?d)))])"
    using generate_returns_text [where c = ok_client, OF h f, of demo_table] t by simp
  have i: "doc_id ?d = doc_id demo_doc" unfolding d by simp
  have r: "fst (get_twin_content None ?d
      (demo_table(doc_id ?d \<mapsto> \<lparr>content_ai = ustr ''## Technical Context''\<rparr>)))
      = Inr (Some (ustr ''## old twin''))"
    unfolding d by (simp add: get_twin_content_def)
  show ?thesis
    unfolding g using r by (simp add: i)
qed

text \<open>
  Claim C4. When the model call of \<open>generate_twin_content\<close> raises an exception, the
  function returns the markdown error block of line 100 (a second-level heading, the
  sentence that the generation failed, the text of the exception in a code fence, and the
  advice to check the key), and nothing is stored: the document object and the twin table
  are unchanged, so \<open>get_twin_content\<close> returns what it returned before.
\<close>

theorem generate_twin_failure_keeps_twin:
  assumes "c (twin_request (twin_prompt (title d) (strip_tags (content d)))) = Inl e"
  shows \<open>generate_twin_content (Some c) faults d tbl =
           (ustr ''## '' @ [9888, 65039] @
              ustr '' AI Generation Error\<newline>\<newline>Failed to generate AI Twin:\<newline>\<newline>```\<newline>'' @
              e @ ustr ''\<newline>```\<newline>\<newline>Please check your API key and try again.'',
            d, tbl, [twin_request (twin_prompt (title d) (strip_tags (content d)))])
       \<and> sublist e (fst (generate_twin_content (Some c) faults d tbl))
       \<and> get_twin_content q
            (fst (snd (generate_twin_content (Some c) faults d tbl)))
            (fst (snd (snd (generate_twin_content (Some c) faults d tbl))))
           = get_twin_content q d tbl\<close>
proof -
  have g: "generate_twin_content (Some c) faults d tbl =
      (generation_error e, d, tbl, [twin_request (twin_prompt (title d) (strip_tags (content d)))])"
    using assms by (simp add: generate_twin_content_def Let_def)
  have l: \<open>generation_error e =
      ustr ''## '' @ [9888, 65039] @
        ustr '' AI Generation Error\<newline>\<newline>Failed to generate AI Twin:\<newline>\<newline>```\<newline>'' @
        e @ ustr ''\<newline>```\<newline>\<newline>Please check your API key and try again.''\<close>
    by (simp add: generation_error_def ustr_def)
  have "sublist e (generation_error e)"
    unfolding generation_error_def sublist_def
    by (metis append.assoc)
  then show ?thesis
    unfolding g l [symmetric] by simp
qed

theorem generate_twin_failure_keeps_twin_witness:
  \<open>failing_client (twin_request (twin_prompt (title demo_doc) (strip_tags (content demo_doc))))
     = Inl (ustr ''Connection error.'')
   \<and> fst (generate_twin_content (Some failing_client) no_faults demo_doc demo_table)
       = ustr ''## '' @ [9888, 65039] @
           ustr '' AI Generation Error\<newline>\<newline>Failed to generate AI Twin:\<newline>\<newline>```\<newline>'' @
           ustr ''Connection error.'' @
           ustr ''\<newline>```\<newline>\<newline>Please check your API key and try again.''
   \<and> fst (get_twin_content None
             (fst (snd (generate_twin_content (Some failing_client) no_faults demo_doc demo_table)))
             (fst (snd (snd (generate_twin_content (Some failing_client) no_faults demo_doc demo_table)))))
       = Inr (Some (ustr ''## old twin''))\<close>
proof -
  have h: "failing_client (twin_request (twin_prompt (title demo_doc) (strip_tags (content demo_doc))))
     = Inl (ustr ''Connection error.'')"
    by (simp add: failing_client_def)
  note r = generate_twin_failure_keeps_twin
    [where c = failing_client and d = demo_doc and tbl = demo_table and faults = no_faults
       and q = None, OF h]
  from r have a: \<open>generate_twin_content (Some failing_client) no_faults demo_doc demo_table =
           (ustr ''## '' @ [9888, 65039] @
              ustr '' AI Generation Error\<newline>\<newline>Failed to generate AI Twin:\<newline>\<newline>```\<newline>'' @
              ustr ''Connection error.'' @
              ustr ''\<newline>```\<newline>\<newline>Please check your API key and try again.'',
            demo_doc, demo_table,
            [twin_request (twin_prompt (title demo_doc) (strip_tags (content demo_doc)))])\<close>
    by (rule conjunct1)
  from r have b: "get_twin_content None
             (fst (snd (generate_twin_content (Some failing_client) no_faults demo_doc demo_table)))
             (fst (snd (snd (generate_twin_content (Some failing_client) no_faults demo_doc demo_table))))
       = get_twin_content None demo_doc demo_table"
    by blast
  have a': \<open>fst (generate_twin_content (Some failing_client) no_faults demo_doc demo_table)
       = ustr ''## '' @ [9888, 65039] @
           ustr '' AI Generation Error\<newline>\<newline>Failed to generate AI Twin:\<newline>\<newline>```\<newline>'' @
           ustr ''Connection error.'' @
           ustr ''\<newline>```\<newline>\<newline>Please check your API key and try again.''\<close>
    unfolding a by (rule fst_conv)
  have b': "fst (get_twin_content None
             (fst (snd (generate_twin_content (Some failing_client) no_faults demo_doc demo_table)))
             (fst (snd (snd (generate_twin_content (Some failing_client) no_faults demo_doc demo_table)))))
       = Inr (Some (ustr ''## old twin''))"
    unfolding b by (rule demo_twin_before)
  from h a' b' show ?thesis by (intro conjI)
qed

text \<open>
  Claim C6. With no client configured, \<open>generate_twin_content\<close> returns the fixed warning
  block of line 43 (a second-level heading and the request to set the key) and leaves the
  document object and the twin table as they are, \<open>ai_assist_text\<close> returns the fixed
  diagnostic response of line 182 with no suggested text, and neither issues a request,
  whatever the input.
\<close>

theorem no_client_no_calls:
  \<open>generate_twin_content None faults d tbl =
     (ustr ''## '' @ [9888, 65039] @
        ustr '' API Key Not Configured\<newline>\<newline>Please set the `ANTHROPIC_API_KEY` environment variable to enable AI features.'',
      d, tbl, [])
   \<and> ai_assist_text lower None selected_text user_prompt full_context =
     (\<lparr>response = ustr ''API key not configured. Please set the ANTHROPIC_API_KEY environment variable.'',
       suggested_text = None\<rparr>, [])\<close>
  by (simp add: generate_twin_content_def ai_assist_text_def Let_def not_configured_def
      api_key_warning_def ustr_def)

theorem no_client_no_calls_witness:
  \<open>generate_twin_content None locked_store demo_doc demo_table =
     (ustr ''## '' @ [9888, 65039] @
        ustr '' API Key Not Configured\<newline>\<newline>Please set the `ANTHROPIC_API_KEY` environment variable to enable AI features.'',
      demo_doc, demo_table, [])
   \<and> ai_assist_text ascii_lower None (ustr ''The app is fast'') (ustr ''make this more formal'') [] =
     (\<lparr>response = ustr ''API key not configured. Please set the ANTHROPIC_API_KEY environment variable.'',
       suggested_text = None\<rparr>, [])\<close>
  using no_client_no_calls
    [of locked_store demo_doc demo_table ascii_lower "ustr ''The app is fast''"
      "ustr ''make this more formal''" "[]"]
  by blast

section \<open>Finding the first delimited span\<close>

lemma contains_sublist: "contains s kw \<longleftrightarrow> sublist kw s"
  by (induction s) (simp_all add: sublist_Cons_right)

lemma prefix_overlap_false:
  assumes p: "prefix pat (xs @ pat @ ys)" and x: "xs \<noteq> []" and l: "length xs < length pat"
    and h: "hd pat \<notin> set (tl pat)"
  shows False
proof -
  from l have ne: "pat \<noteq> []" by auto
  from p obtain zs where z: "xs @ pat @ ys = pat @ zs" by (auto simp: prefix_def)
  from l have "(pat @ zs) ! length xs = pat ! length xs" by (simp add: nth_append)
  with z have "pat ! length xs = (xs @ pat @ ys) ! length xs" by simp
  also have "\<dots> = hd pat"
    using ne by (simp add: nth_append hd_conv_nth)
  finally have e: "pat ! length xs = hd pat" .
  from x obtain n where n: "length xs = Suc n" by (cases xs) auto
  with l ne have "pat ! length xs = tl pat ! n" "n < length (tl pat)"
    by (simp_all add: nth_tl)
  then have "pat ! length xs \<in> set (tl pat)" by (metis nth_mem)
  with e h show False by simp
qed

lemma no_prefix_before:
  assumes s: "\<not> sublist pat (x # xs)" and h: "hd pat \<notin> set (tl pat)"
  shows "\<not> prefix pat (x # xs @ pat @ ys)"
proof
  assume p: "prefix pat (x # xs @ pat @ ys)"
  show False
  proof (cases "length (x # xs) < length pat")
    case True
    with p h show False
      using prefix_overlap_false [of pat "x # xs" ys] by simp
  next
    case False
    then have "length pat \<le> length (x # xs)" by simp
    moreover from p have "prefix pat ((x # xs) @ pat @ ys)" by simp
    ultimately have "prefix pat (x # xs)"
      by (metis prefix_length_prefix prefixI)
    with s show False by auto
  qed
qed

lemma lazy_until_first:
  assumes "\<not> sublist pat xs" and "hd pat \<notin> set (tl pat)" and "pat \<noteq> []"
  shows "lazy_until pat (xs @ pat @ ys) = Some (xs, ys)"
  using assms
proof (induction xs)
  case Nil
  then obtain a as where "pat = a # as" by (cases pat) auto
  then show ?case by simp
next
  case (Cons x xs)
  then have "\<not> prefix pat (x # xs @ pat @ ys)" by (intro no_prefix_before)
  moreover from Cons.prems have "\<not> sublist pat xs" by (simp add: sublist_Cons_right)
  ultimately show ?case using Cons by simp
qed

lemma open_tag_facts: "hd open_tag \<notin> set (tl open_tag)" "open_tag \<noteq> []"
  by (simp_all add: open_tag_def ustr_def)

lemma close_tag_facts: "hd close_tag \<notin> set (tl close_tag)" "close_tag \<noteq> []"
  by (simp_all add: close_tag_def ustr_def)

lemma re_match_suggested_at_tag:
  assumes "\<not> sublist close_tag payload"
  shows "re_match_suggested (open_tag @ payload @ close_tag @ rest) = Some (payload, rest)"
  using lazy_until_first [OF assms close_tag_facts, of rest]
  by (simp add: re_match_suggested_def)

lemma re_match_suggested_before_tag:
  assumes "\<not> sublist open_tag (x # xs)"
  shows "re_match_suggested (x # xs @ open_tag @ ys) = None"
  using no_prefix_before [OF assms open_tag_facts(1), of ys]
  by (simp add: re_match_suggested_def)

lemma re_search_first:
  assumes "\<not> sublist open_tag expl" and "\<not> sublist close_tag payload"
  shows "re_search_suggested (expl @ open_tag @ payload @ close_tag @ rest) = Some (expl, payload, rest)"
  using assms
proof (induction expl)
  case Nil
  obtain a as where o: "open_tag = a # as" using open_tag_facts(2) by (cases open_tag) auto
  have "re_match_suggested (a # as @ payload @ close_tag @ rest) = Some (payload, rest)"
    using re_match_suggested_at_tag [OF Nil.prems(2), of rest] by (simp add: o)
  then show ?case by (simp add: o)
next
  case (Cons x xs)
  from Cons.prems have "\<not> sublist open_tag xs" by (simp add: sublist_Cons_right)
  with Cons re_match_suggested_before_tag [OF Cons.prems(1)] show ?case by simp
qed

lemma re_sub_first:
  assumes "\<not> sublist open_tag expl" and "\<not> sublist close_tag payload"
  shows "re_sub_suggested (expl @ open_tag @ payload @ close_tag @ rest) = expl @ re_sub_suggested rest"
  using assms
proof (induction expl)
  case Nil
  obtain a as where o: "open_tag = a # as" using open_tag_facts(2) by (cases open_tag) auto
  have "re_match_suggested (a # as @ payload @ close_tag @ rest) = Some (payload, rest)"
    using re_match_suggested_at_tag [OF Nil.prems(2), of rest] by (simp add: o)
  then show ?case by (simp add: o)
next
  case (Cons x xs)
  from Cons.prems have "\<not> sublist open_tag xs" by (simp add: sublist_Cons_right)
  with Cons re_match_suggested_before_tag [OF Cons.prems(1)] show ?case by simp
qed

lemma extract_suggested_delimited:
  assumes "\<not> sublist open_tag expl" and "\<not> sublist close_tag payload"
  shows "extract_suggested (expl @ open_tag @ payload @ close_tag) = (Some (strip payload), strip expl)"
  using re_search_first [OF assms, of "[]"] re_sub_first [OF assms, of "[]"]
  by (simp add: extract_suggested_def)

section \<open>The four ways through the \<open>try\<close> block\<close>

lemma ai_assist_text_Some:
  "ai_assist_text lower (Some c) sel p ctx =
     (case assist_try c (is_modification_request lower p) (strip_tags sel)
             (user_message (strip_tags sel) (strip_tags ctx) p) of
        (Inr result, calls) \<Rightarrow> (result, calls)
      | (Inl e, calls) \<Rightarrow> (\<lparr>response = ustr ''Error: '' @ e, suggested_text = None\<rparr>, calls))"
  by (simp add: ai_assist_text_def Let_def)

lemma assist_try_primary_fails:
  "c (primary_request msg) = Inl e \<Longrightarrow> assist_try c f cs msg = (Inl e, [primary_request msg])"
  by (simp add: assist_try_def Let_def)

lemma assist_try_no_fallback:
  "c (primary_request msg) = Inr raw \<Longrightarrow> \<not> (falsy (fst (extract_suggested raw)) \<and> f) \<Longrightarrow>
   assist_try c f cs msg =
     (Inr \<lparr>response = snd (extract_suggested raw), suggested_text = fst (extract_suggested raw)\<rparr>,
      [primary_request msg])"
  by (auto simp: assist_try_def Let_def split: prod.splits)

lemma assist_try_fallback_fails:
  "c (primary_request msg) = Inr raw \<Longrightarrow> falsy (fst (extract_suggested raw)) \<Longrightarrow> f \<Longrightarrow>
   c (extraction_request (extraction_prompt cs (snd (extract_suggested raw)))) = Inl e \<Longrightarrow>
   assist_try c f cs msg =
     (Inl e, [primary_request msg,
              extraction_request (extraction_prompt cs (snd (extract_suggested raw)))])"
  by (auto simp: assist_try_def Let_def split: prod.splits)

lemma assist_try_fallback_returns:
  "c (primary_request msg) = Inr raw \<Longrightarrow> falsy (fst (extract_suggested raw)) \<Longrightarrow> f \<Longrightarrow>
   c (extraction_request (extraction_prompt cs (snd (extract_suggested raw)))) = Inr raw2 \<Longrightarrow>
   assist_try c f cs msg =
     (Inr \<lparr>response = snd (extract_suggested raw),
           suggested_text =
             (if strip raw2 \<noteq> [] \<and> strip raw2 \<noteq> ustr ''NO_REPLACEMENT'' \<and> length (strip raw2) > 3
              then Some (strip raw2) else fst (extract_suggested raw))\<rparr>,
      [primary_request msg,
       extraction_request (extraction_prompt cs (snd (extract_suggested raw)))])"
  by (auto simp: assist_try_def Let_def split: prod.splits)

section \<open>The example inputs evaluated\<close>

lemma scripted_client_primary [simp]: "scripted_client a b (primary_request m) = a"
  by (simp add: scripted_client_def primary_request_def)

lemma scripted_client_extraction [simp]: "scripted_client a b (extraction_request q) = b"
  by (simp add: scripted_client_def extraction_request_def)

lemma fix_prompt_mod: "is_modification_request ascii_lower fix_prompt"
  by (simp add: is_modification_request_def modification_keywords_def fix_prompt_def
      ascii_lower_def ustr_def)

lemma question_prompt_not_mod: "\<not> is_modification_request ascii_lower question_prompt"
  by (simp add: is_modification_request_def modification_keywords_def question_prompt_def
      ascii_lower_def ustr_def)

lemma untagged_no_span: "re_search_suggested untagged_response = None"
  by (simp add: untagged_response_def re_match_suggested_def open_tag_def ustr_def)

lemma empty_span_form:
  "empty_span_response = ustr ''Done. '' @ open_tag @ ustr '' '' @ close_tag"
  by (simp add: empty_span_response_def open_tag_def close_tag_def ustr_def)

lemma empty_span_parts:
  "\<not> sublist open_tag (ustr ''Done. '')" "\<not> sublist close_tag (ustr '' '')"
  by (simp_all add: contains_sublist [symmetric] open_tag_def close_tag_def ustr_def)

lemma empty_span_search:
  "re_search_suggested empty_span_response = Some (ustr ''Done. '', ustr '' '', [])"
  using re_search_first [OF empty_span_parts, of "[]"] by (simp add: empty_span_form)

lemma strip_blank: "strip (ustr '' '') = []"
  by (simp add: strip_def py_isspace_def ustr_def)

lemma empty_span_extract:
  "extract_suggested empty_span_response = (Some [], strip (ustr ''Done. ''))"
  using extract_suggested_delimited [OF empty_span_parts] by (simp add: empty_span_form strip_blank)

lemma strip_examples:
  "strip (ustr ''Done. '') = ustr ''Done.''"
  "strip (ustr ''NO_REPLACEMENT'') = ustr ''NO_REPLACEMENT''"
  "strip untagged_response = untagged_response"
  by (simp_all add: strip_def py_isspace_def ustr_def untagged_response_def)

lemma empty_span_run:
  "ai_assist_text ascii_lower (Some (scripted_client (Inr empty_span_response) (Inr raw2)))
     sample_selected fix_prompt [] =
   (\<lparr>response = strip (ustr ''Done. ''),
     suggested_text =
       (if strip raw2 \<noteq> [] \<and> strip raw2 \<noteq> ustr ''NO_REPLACEMENT'' \<and> length (strip raw2) > 3
        then Some (strip raw2) else Some [])\<rparr>,
    [primary_request (user_message (strip_tags sample_selected) (strip_tags []) fix_prompt),
     extraction_request (extraction_prompt (strip_tags sample_selected) (strip (ustr ''Done. '')))])"
proof -
  let ?c = "scripted_client (Inr empty_span_response) (Inr raw2)"
  let ?msg = "user_message (strip_tags sample_selected) (strip_tags []) fix_prompt"
  have h: "?c (primary_request ?msg) = Inr empty_span_response" by simp
  have f: "falsy (fst (extract_suggested empty_span_response))"
    by (simp add: empty_span_extract falsy_def)
  have r: "?c (extraction_request (extraction_prompt (strip_tags sample_selected)
             (snd (extract_suggested empty_span_response)))) = Inr raw2"
    by simp
  show ?thesis
    using assist_try_fallback_returns [where c = ?c, OF h f fix_prompt_mod r]
    by (simp add: ai_assist_text_Some empty_span_extract)
qed

section \<open>Properties of the Selection Assistant\<close>

text \<open>
  Claim C8. The prompt is classified as a modification request exactly when its
  lowercased text contains one of the nineteen keywords as a substring. The first request
  of the \<open>try\<close> block is the primary request for either value of the classification; it
  carries the fixed system prompt and the user message, which is built from the stripped
  selection, the stripped context and the prompt only.
\<close>

theorem modification_classification:
  "(is_modification_request lower p \<longleftrightarrow>
      (\<exists>kw \<in> set (map ustr [''improve'', ''fix'', ''rewrite'', ''change'', ''make'', ''shorten'',
          ''expand'', ''grammar'', ''spelling'', ''professional'', ''clearer'', ''concise'',
          ''better'', ''translate'', ''simplify'', ''formal'', ''casual'', ''correct'', ''edit'']).
         sublist kw (lower p)))
   \<and> hd (snd (assist_try c flag clean_selected msg)) = primary_request msg
   \<and> system (primary_request msg) = Some system_prompt
   \<and> messages (primary_request msg) = [(ustr ''user'', msg)]
   \<and> hd (snd (ai_assist_text lower (Some c) sel p ctx)) =
       primary_request (user_message (strip_tags sel) (strip_tags ctx) p)"
proof (intro conjI)
  show "is_modification_request lower p \<longleftrightarrow>
      (\<exists>kw \<in> set (map ustr [''improve'', ''fix'', ''rewrite'', ''change'', ''make'', ''shorten'',
          ''expand'', ''grammar'', ''spelling'', ''professional'', ''clearer'', ''concise'',
          ''better'', ''translate'', ''simplify'', ''formal'', ''casual'', ''correct'', ''edit'']).
         sublist kw (lower p))"
    unfolding is_modification_request_def modification_keywords_def list_ex_iff contains_sublist ..
  obtain rest where r: "snd (assist_try c flag clean_selected msg) = primary_request msg # rest"
    using assist_first_call by blast
  then show "hd (snd (assist_try c flag clean_selected msg)) = primary_request msg" by simp
  show "system (primary_request msg) = Some system_prompt"
    by (simp add: primary_request_def)
  show "messages (primary_request msg) = [(ustr ''user'', msg)]"
    by (simp add: primary_request_def)
  obtain rest2 where "snd (assist_try c (is_modification_request lower p) (strip_tags sel)
      (user_message (strip_tags sel) (strip_tags ctx) p)) =
      primary_request (user_message (strip_tags sel) (strip_tags ctx) p) # rest2"
    using assist_first_call by blast
  then show "hd (snd (ai_assist_text lower (Some c) sel p ctx)) =
       primary_request (user_message (strip_tags sel) (strip_tags ctx) p)"
    by (auto simp: ai_assist_text_Some split: sum.splits prod.splits)
qed

theorem modification_classification_witness:
  "(\<exists>kw \<in> set (map ustr [''improve'', ''fix'', ''rewrite'', ''change'', ''make'', ''shorten'',
          ''expand'', ''grammar'', ''spelling'', ''professional'', ''clearer'', ''concise'',
          ''better'', ''translate'', ''simplify'', ''formal'', ''casual'', ''correct'', ''edit'']).
         sublist kw (ascii_lower (ustr ''Is this Better?'')))
   \<and> \<not> (\<exists>kw \<in> set (map ustr [''improve'', ''fix'', ''rewrite'', ''change'', ''make'', ''shorten'',
          ''expand'', ''grammar'', ''spelling'', ''professional'', ''clearer'', ''concise'',
          ''better'', ''translate'', ''simplify'', ''formal'', ''casual'', ''correct'', ''edit'']).
         sublist kw (ascii_lower question_prompt))"
proof -
  have "is_modification_request ascii_lower (ustr ''Is this Better?'')"
    by (simp add: is_modification_request_def modification_keywords_def ascii_lower_def ustr_def)
  with question_prompt_not_mod show ?thesis
    using modification_classification [of ascii_lower "ustr ''Is this Better?''"] modification_classification [of ascii_lower question_prompt]
    by blast
qed

text \<open>
  Claim C1. The claim gates the extraction call on a primary response without a delimited
  span, as the comment of line 212 does. The test of line 213, \<open>not suggested_text\<close>, also
  holds for the empty string: the response \<open>Done. <suggested_text> </suggested_text>\<close>
  contains a delimited span, the prompt \<open>fix the grammar\<close> is a modification request, and
  the extraction call is issued.
\<close>

theorem fallback_issued_despite_span:
  "re_search_suggested empty_span_response = Some (ustr ''Done. '', ustr '' '', [])
   \<and> is_modification_request ascii_lower fix_prompt
   \<and> snd (ai_assist_text ascii_lower
          (Some (scripted_client (Inr empty_span_response) (Inr untagged_response)))
          sample_selected fix_prompt []) =
        [primary_request (user_message (strip_tags sample_selected) (strip_tags []) fix_prompt),
         extraction_request (extraction_prompt (strip_tags sample_selected) (ustr ''Done.''))]"
  using empty_span_search fix_prompt_mod by (simp add: empty_span_run strip_examples)

text \<open>
  Claim C10. When the payload of the first delimited span of the primary response trims
  to the empty string: for a modification request the extraction call is issued although
  a span was present; for any other prompt no extraction call is issued and the suggested
  text returned is the empty string, not \<open>None\<close>.
\<close>

theorem empty_payload_gating:
  assumes "c (primary_request (user_message (strip_tags sel) (strip_tags ctx) p)) = Inr raw"
    and "re_search_suggested raw = Some (before, g, after)"
    and "strip g = []"
  shows "(is_modification_request lower p \<longrightarrow>
            snd (ai_assist_text lower (Some c) sel p ctx) =
              [primary_request (user_message (strip_tags sel) (strip_tags ctx) p),
               extraction_request (extraction_prompt (strip_tags sel) (strip (re_sub_suggested raw)))])
       \<and> (\<not> is_modification_request lower p \<longrightarrow>
            ai_assist_text lower (Some c) sel p ctx =
              (\<lparr>response = strip (re_sub_suggested raw), suggested_text = Some []\<rparr>,
               [primary_request (user_message (strip_tags sel) (strip_tags ctx) p)]))"
proof (intro conjI impI)
  let ?msg = "user_message (strip_tags sel) (strip_tags ctx) p"
  from assms(2,3) have e: "extract_suggested raw = (Some [], strip (re_sub_suggested raw))"
    by (simp add: extract_suggested_def)
  then have f: "falsy (fst (extract_suggested raw))" by (simp add: falsy_def)
  {
    assume m: "is_modification_request lower p"
    show "snd (ai_assist_text lower (Some c) sel p ctx) =
              [primary_request ?msg,
               extraction_request (extraction_prompt (strip_tags sel) (strip (re_sub_suggested raw)))]"
    proof (cases "c (extraction_request (extraction_prompt (strip_tags sel) (snd (extract_suggested raw))))")
      case (Inl e2)
      with assist_try_fallback_fails [where c = c, OF assms(1) f m Inl] show ?thesis
        by (simp add: ai_assist_text_Some e)
    next
      case (Inr raw2)
      with assist_try_fallback_returns [where c = c, OF assms(1) f m Inr] show ?thesis
        by (simp add: ai_assist_text_Some e)
    qed
  }
  {
    assume m: "\<not> is_modification_request lower p"
    then have "\<not> (falsy (fst (extract_suggested raw)) \<and> is_modification_request lower p)" by simp
    from assist_try_no_fallback [where c = c and cs = "strip_tags sel", OF assms(1) this]
    show "ai_assist_text lower (Some c) sel p ctx =
              (\<lparr>response = strip (re_sub_suggested raw), suggested_text = Some []\<rparr>,
               [primary_request ?msg])"
      by (simp add: ai_assist_text_Some e)
  }
qed

theorem empty_payload_gating_witness:
  "re_search_suggested empty_span_response = Some (ustr ''Done. '', ustr '' '', [])
   \<and> strip (ustr '' '') = []
   \<and> snd (ai_assist_text ascii_lower
          (Some (scripted_client (Inr empty_span_response) (Inr untagged_response)))
          sample_selected fix_prompt []) =
       [primary_request (user_message (strip_tags sample_selected) (strip_tags []) fix_prompt),
        extraction_request (extraction_prompt (strip_tags sample_selected)
          (strip (re_sub_suggested empty_span_response)))]
   \<and> ai_assist_text ascii_lower
          (Some (scripted_client (Inr empty_span_response) (Inr untagged_response)))
          sample_selected question_prompt [] =
       (\<lparr>response = strip (re_sub_suggested empty_span_response), suggested_text = Some []\<rparr>,
        [primary_request (user_message (strip_tags sample_selected) (strip_tags []) question_prompt)])"
proof -
  let ?c = "scripted_client (Inr empty_span_response) (Inr untagged_response)"
  have h1: "?c (primary_request (user_message (strip_tags sample_selected) (strip_tags []) fix_prompt))
      = Inr empty_span_response" by simp
  have h2: "?c (primary_request (user_message (strip_tags sample_selected) (strip_tags []) question_prompt))
      = Inr empty_span_response" by simp
  show ?thesis
    using empty_payload_gating [where c = ?c and lower = ascii_lower, OF h1 empty_span_search strip_blank]
          empty_payload_gating [where c = ?c and lower = ascii_lower, OF h2 empty_span_search strip_blank]
          fix_prompt_mod question_prompt_not_mod empty_span_search strip_blank
    by blast
qed

text \<open>
  Claim C5. The claim holds where the extraction call follows a response without a
  delimited span. Through the test of line 213 the call also follows the response
  \<open>Done. <suggested_text> </suggested_text>\<close>; there the extraction call answers
  \<open>NO_REPLACEMENT\<close>, the answer is rejected, and the suggested text returned is the empty
  string left by line 208, not \<open>None\<close>.
\<close>

theorem rejected_fallback_keeps_empty_string:
  "scripted_client (Inr empty_span_response) (Inr (ustr ''NO_REPLACEMENT''))
     (extraction_request (extraction_prompt (strip_tags sample_selected) (ustr ''Done.'')))
     = Inr (ustr ''NO_REPLACEMENT'')
   \<and> strip (ustr ''NO_REPLACEMENT'') = ustr ''NO_REPLACEMENT''
   \<and> ai_assist_text ascii_lower
        (Some (scripted_client (Inr empty_span_response) (Inr (ustr ''NO_REPLACEMENT''))))
        sample_selected fix_prompt [] =
      (\<lparr>response = ustr ''Done.'', suggested_text = Some []\<rparr>,
       [primary_request (user_message (strip_tags sample_selected) (strip_tags []) fix_prompt),
        extraction_request (extraction_prompt (strip_tags sample_selected) (ustr ''Done.''))])"
  by (simp add: empty_span_run strip_examples)

text \<open>
  Claim C2. The response \<open>Done. <suggested_text> </suggested_text>\<close> has the form of the
  claim, with the explanation \<open>Done. \<close> and a payload that trims to the empty string. For
  the prompt \<open>fix the grammar\<close> the test of line 213 sends the extraction call, and the
  suggested text returned is its answer, not the trimmed payload.
\<close>

theorem empty_payload_overridden_by_fallback:
  "empty_span_response = ustr ''Done. '' @ open_tag @ ustr '' '' @ close_tag
   \<and> strip (ustr '' '') = []
   \<and> ai_assist_text ascii_lower
        (Some (scripted_client (Inr empty_span_response) (Inr (ustr ''The app runs fast.''))))
        sample_selected fix_prompt [] =
      (\<lparr>response = ustr ''Done.'', suggested_text = Some (ustr ''The app runs fast.'')\<rparr>,
       [primary_request (user_message (strip_tags sample_selected) (strip_tags []) fix_prompt),
        extraction_request (extraction_prompt (strip_tags sample_selected) (ustr ''Done.''))])"
proof -
  have "strip (ustr ''The app runs fast.'') = ustr ''The app runs fast.''"
    "ustr ''The app runs fast.'' \<noteq> ustr ''NO_REPLACEMENT''"
    "ustr ''The app runs fast.'' \<noteq> []" "length (ustr ''The app runs fast.'') > 3"
    by (simp_all add: strip_def py_isspace_def ustr_def)
  then show ?thesis
    using empty_span_form by (simp add: empty_span_run strip_blank strip_examples)
qed

text \<open>
  Claim C7. \<open>ai_assist_text\<close> always returns a result. If a request it issued raised an
  exception, the result is the diagnostic response \<open>Error: \<close> followed by the text of the
  exception, with no suggested text. If every request it issued returned a text, the
  \<open>try\<close> block returned normally and its value is the result. With no client the result
  is the fixed diagnostic response.
\<close>

theorem assist_total:
  "(req \<in> set (snd (ai_assist_text lower (Some c) sel p ctx)) \<and> c req = Inl e \<longrightarrow>
      fst (ai_assist_text lower (Some c) sel p ctx) =
        \<lparr>response = ustr ''Error: '' @ e, suggested_text = None\<rparr>)
   \<and> ((\<forall>req \<in> set (snd (ai_assist_text lower (Some c) sel p ctx)). \<exists>t. c req = Inr t) \<longrightarrow>
      fst (assist_try c (is_modification_request lower p) (strip_tags sel)
             (user_message (strip_tags sel) (strip_tags ctx) p)) =
        Inr (fst (ai_assist_text lower (Some c) sel p ctx)))
   \<and> fst (ai_assist_text lower None sel p ctx) = not_configured"
proof -
  let ?msg = "user_message (strip_tags sel) (strip_tags ctx) p"
  let ?f = "is_modification_request lower p"
  let ?q = "extraction_prompt (strip_tags sel)"
  let ?err = "\<lambda>e. \<lparr>response = ustr ''Error: '' @ e, suggested_text = None\<rparr>"
  have n: "fst (ai_assist_text lower None sel p ctx) = not_configured"
    by (simp add: ai_assist_text_def Let_def)
  consider
    (pf) e1 where "c (primary_request ?msg) = Inl e1"
  | (nf) raw where "c (primary_request ?msg) = Inr raw"
      "\<not> (falsy (fst (extract_suggested raw)) \<and> ?f)"
  | (ff) raw e2 where "c (primary_request ?msg) = Inr raw"
      "falsy (fst (extract_suggested raw))" "?f"
      "c (extraction_request (?q (snd (extract_suggested raw)))) = Inl e2"
  | (fr) raw raw2 where "c (primary_request ?msg) = Inr raw"
      "falsy (fst (extract_suggested raw))" "?f"
      "c (extraction_request (?q (snd (extract_suggested raw)))) = Inr raw2"
  proof (cases "c (primary_request ?msg)")
    case (Inl e1)
    then show ?thesis by (rule pf)
  next
    case (Inr raw)
    show ?thesis
    proof (cases "falsy (fst (extract_suggested raw)) \<and> ?f")
      case False
      with Inr show ?thesis by (rule nf)
    next
      case True
      then show ?thesis
        using Inr ff fr by (cases "c (extraction_request (?q (snd (extract_suggested raw))))") auto
    qed
  qed
  then have "(req \<in> set (snd (ai_assist_text lower (Some c) sel p ctx)) \<and> c req = Inl e \<longrightarrow>
      fst (ai_assist_text lower (Some c) sel p ctx) = ?err e)
   \<and> ((\<forall>req \<in> set (snd (ai_assist_text lower (Some c) sel p ctx)). \<exists>t. c req = Inr t) \<longrightarrow>
      fst (assist_try c ?f (strip_tags sel) ?msg) = Inr (fst (ai_assist_text lower (Some c) sel p ctx)))"
  proof cases
    case pf
    from assist_try_primary_fails [where c = c, OF pf, of ?f "strip_tags sel"] pf
    show ?thesis by (auto simp: ai_assist_text_Some)
  next
    case nf
    from assist_try_no_fallback [where c = c and cs = "strip_tags sel", OF nf] nf(1)
    show ?thesis by (auto simp: ai_assist_text_Some)
  next
    case ff
    from assist_try_fallback_fails [where c = c, OF ff] ff(1,4)
    show ?thesis by (auto simp: ai_assist_text_Some)
  next
    case fr
    from assist_try_fallback_returns [where c = c, OF fr] fr(1,4)
    show ?thesis by (auto simp: ai_assist_text_Some)
  qed
  with n show ?thesis by blast
qed

theorem assist_total_witness:
  "ai_assist_text ascii_lower
      (Some (scripted_client (Inr untagged_response) (Inl (ustr ''Rate limit exceeded''))))
      sample_selected fix_prompt [] =
     (\<lparr>response = ustr ''Error: '' @ ustr ''Rate limit exceeded'', suggested_text = None\<rparr>,
      [primary_request (user_message (strip_tags sample_selected) (strip_tags []) fix_prompt),
       extraction_request (extraction_prompt (strip_tags sample_selected) untagged_response)])
   \<and> fst (assist_try (scripted_client (Inr untagged_response) (Inl (ustr ''Rate limit exceeded'')))
           (is_modification_request ascii_lower question_prompt) (strip_tags sample_selected)
           (user_message (strip_tags sample_selected) (strip_tags []) question_prompt)) =
       Inr (fst (ai_assist_text ascii_lower
          (Some (scripted_client (Inr untagged_response) (Inl (ustr ''Rate limit exceeded''))))
          sample_selected question_prompt []))"
proof -
  let ?c = "scripted_client (Inr untagged_response) (Inl (ustr ''Rate limit exceeded''))"
  let ?msg = "user_message (strip_tags sample_selected) (strip_tags []) fix_prompt"
  let ?msgq = "user_message (strip_tags sample_selected) (strip_tags []) question_prompt"
  let ?req2 = "extraction_request (extraction_prompt (strip_tags sample_selected) untagged_response)"
  have e: "extract_suggested untagged_response = (None, untagged_response)"
    by (simp add: extract_suggested_def untagged_no_span)
  have h: "?c (primary_request ?msg) = Inr untagged_response" by simp
  have f: "falsy (fst (extract_suggested untagged_response))" by (simp add: e falsy_def)
  have r: "?c (extraction_request (extraction_prompt (strip_tags sample_selected)
        (snd (extract_suggested untagged_response)))) = Inl (ustr ''Rate limit exceeded'')"
    by simp
  have t: "snd (ai_assist_text ascii_lower (Some ?c) sample_selected fix_prompt []) =
      [primary_request ?msg, ?req2]"
    using assist_try_fallback_fails [where c = ?c, OF h f fix_prompt_mod r]
    by (simp add: ai_assist_text_Some e)
  then have "?req2 \<in> set (snd (ai_assist_text ascii_lower (Some ?c) sample_selected fix_prompt []))"
    by simp
  moreover have "?c ?req2 = Inl (ustr ''Rate limit exceeded'')" by simp
  ultimately have "fst (ai_assist_text ascii_lower (Some ?c) sample_selected fix_prompt []) =
      \<lparr>response = ustr ''Error: '' @ ustr ''Rate limit exceeded'', suggested_text = None\<rparr>"
    using assist_total [of ?req2 ascii_lower ?c sample_selected fix_prompt "[]" "ustr ''Rate limit exceeded''"]
    by blast
  with t have a: "ai_assist_text ascii_lower (Some ?c) sample_selected fix_prompt [] =
     (\<lparr>response = ustr ''Error: '' @ ustr ''Rate limit exceeded'', suggested_text = None\<rparr>,
      [primary_request ?msg, ?req2])"
    by (simp add: prod_eq_iff)
  have hq: "?c (primary_request ?msgq) = Inr untagged_response" by simp
  have nq: "\<not> (falsy (fst (extract_suggested untagged_response))
      \<and> is_modification_request ascii_lower question_prompt)"
    by (simp add: question_prompt_not_mod)
  have "snd (ai_assist_text ascii_lower (Some ?c) sample_selected question_prompt []) =
      [primary_request ?msgq]"
    using assist_try_no_fallback [where c = ?c and cs = "strip_tags sample_selected", OF hq nq]
    by (simp add: ai_assist_text_Some)
  then have "\<forall>req \<in> set (snd (ai_assist_text ascii_lower (Some ?c) sample_selected question_prompt [])).
      \<exists>t. ?c req = Inr t"
    by simp
  then have b: "fst (assist_try ?c (is_modification_request ascii_lower question_prompt)
           (strip_tags sample_selected) ?msgq) =
       Inr (fst (ai_assist_text ascii_lower (Some ?c) sample_selected question_prompt []))"
    using assist_total [of _ ascii_lower ?c sample_selected question_prompt "[]"]
    by blast
  from a b show ?thesis by (rule conjI)
qed

end
